theory Spec2Isabelle
  imports Main
begin

section \<open>JavaScript values and the object store\<close>

text \<open>
  The client works on plain JavaScript objects that it shares and mutates in place
  (\<^verbatim>\<open>mergeRecursive\<close> assigns into its first argument and stores references to parts of
  its second), so objects live in an explicit store and a value is either a primitive or
  a reference into that store. An object is its list of own enumerable properties in
  insertion order, which is the order \<^verbatim>\<open>for (p in obj)\<close> visits them.

  Outside the model: inherited properties, getters, frozen objects, the numeric-first
  ordering of integer-like keys, and \<^verbatim>\<open>for..in\<close> over an array or a string passed where
  a mapping is expected. Numbers are integers. Arrays are immutable values: the program
  never assigns to an array element.
\<close>

datatype val =
    Undefined
  | Null
  | VBool bool
  | VNum int
  | VStr string
  | VFun nat
  | VSym nat
  | VArr "val list"
  | VRef nat

type_synonym props = "(string \<times> val) list"
type_synonym heap = "props list"

datatype exn =
    Error string
  | TypeError
  | RangeError
  | SyntaxError
  | URIError
  | Thrown nat

datatype json =
    JNull
  | JBool bool
  | JNum int
  | JStr string
  | JArr "json list"
  | JObj "(string \<times> json) list"

text \<open>
  The built-ins of the platform the file calls but does not define. They are parameters
  of the model: every theorem holds for whatever they compute.
  \<^verbatim>\<open>encodeURIComponent\<close> converts its argument to a string first and can throw;
  \<^verbatim>\<open>JSON_stringify\<close> stands for the text that \<^verbatim>\<open>':' + JSON.stringify(params)\<close> appends;
  \<^verbatim>\<open>call_depth\<close> is how many nested calls of \<^verbatim>\<open>mergeRecursive\<close> the call stack has
  room for below the outermost one.
\<close>

record platform =
  encodeURIComponent :: "val \<Rightarrow> exn + string"
  JSON_stringify :: "heap \<Rightarrow> val \<Rightarrow> exn + string"
  JSON_parse :: "string \<Rightarrow> exn + json"
  ToString :: "json \<Rightarrow> string"
  call_depth :: nat

definition and_then :: "exn + 'a \<Rightarrow> ('a \<Rightarrow> exn + 'b) \<Rightarrow> exn + 'b" where
  "and_then m f = (case m of Inl e \<Rightarrow> Inl e | Inr x \<Rightarrow> f x)"

fun truthy :: "val \<Rightarrow> bool" where
  "truthy Undefined = False"
| "truthy Null = False"
| "truthy (VBool b) = b"
| "truthy (VNum n) = (n \<noteq> 0)"
| "truthy (VStr s) = (s \<noteq> [])"
| "truthy _ = True"

fun typeof :: "val \<Rightarrow> string" where
  "typeof Undefined = ''undefined''"
| "typeof Null = ''object''"
| "typeof (VBool b) = ''boolean''"
| "typeof (VNum n) = ''number''"
| "typeof (VStr s) = ''string''"
| "typeof (VFun f) = ''function''"
| "typeof (VSym y) = ''symbol''"
| "typeof (VArr xs) = ''object''"
| "typeof (VRef a) = ''object''"

definition props_of :: "heap \<Rightarrow> nat \<Rightarrow> props" where
  "props_of h a = (if a < length h then h ! a else [])"

text \<open>
  The keys \<^verbatim>\<open>for (var p in obj)\<close> visits: the own keys of an object, in the order they were
  added. Arrays and strings are values here and their indices are not keys, so merging
  from one copies nothing; the options and the parameters the file documents are
  objects.
\<close>

fun own_keys :: "heap \<Rightarrow> val \<Rightarrow> string list" where
  "own_keys h (VRef a) = map fst (props_of h a)"
| "own_keys h _ = []"

text \<open>\<^verbatim>\<open>obj[p]\<close>: reading a property of \<^verbatim>\<open>undefined\<close> or \<^verbatim>\<open>null\<close> throws.\<close>

fun get_prop :: "heap \<Rightarrow> val \<Rightarrow> string \<Rightarrow> exn + val" where
  "get_prop h Undefined p = Inl TypeError"
| "get_prop h Null p = Inl TypeError"
| "get_prop h (VRef a) p =
     Inr (case map_of (props_of h a) p of Some v \<Rightarrow> v | None \<Rightarrow> Undefined)"
| "get_prop h _ p = Inr Undefined"

text \<open>An existing key keeps its place, a new key is added last.\<close>

fun assign :: "'k \<Rightarrow> 'v \<Rightarrow> ('k \<times> 'v) list \<Rightarrow> ('k \<times> 'v) list" where
  "assign k v [] = [(k, v)]"
| "assign k v ((k', v') # ps) =
     (if k = k' then (k, v) # ps else (k', v') # assign k v ps)"

text \<open>
  \<^verbatim>\<open>obj[p] = v\<close> in strict mode (the file starts with \<^verbatim>\<open>'use strict'\<close>): assigning to a
  property of \<^verbatim>\<open>undefined\<close>, \<^verbatim>\<open>null\<close> or a primitive throws. A property put on a function
  or an array is accepted and not recorded: nothing reads it.
\<close>

fun set_prop :: "heap \<Rightarrow> val \<Rightarrow> string \<Rightarrow> val \<Rightarrow> exn + heap" where
  "set_prop h (VRef a) p v =
     (if a < length h then Inr (h[a := assign p v (h ! a)]) else Inl TypeError)"
| "set_prop h (VFun f) p v = Inr h"
| "set_prop h (VArr xs) p v = Inr h"
| "set_prop h _ p v = Inl TypeError"

definition new_object :: "props \<Rightarrow> heap \<Rightarrow> val \<times> heap" where
  "new_object ps h = (VRef (length h), h @ [ps])"

section \<open>mergeRecursive\<close>

type_synonym merge_fn = "val \<Rightarrow> val \<Rightarrow> heap \<Rightarrow> (exn + val) \<times> heap"

text \<open>
  The body of the \<^verbatim>\<open>try\<close> for one key. \<^verbatim>\<open>obj2[p].constructor\<close> throws on
  \<^verbatim>\<open>undefined\<close> and \<^verbatim>\<open>null\<close>; it is \<^verbatim>\<open>Object\<close> exactly for a plain object.
\<close>

definition merge_try :: "merge_fn \<Rightarrow> val \<Rightarrow> val \<Rightarrow> string \<Rightarrow> heap \<Rightarrow> (exn + unit) \<times> heap" where
  "merge_try rec obj1 obj2 p h =
     (case get_prop h obj2 p of
        Inl e \<Rightarrow> (Inl e, h)
      | Inr v \<Rightarrow>
         (case v of
            Undefined \<Rightarrow> (Inl TypeError, h)
          | Null \<Rightarrow> (Inl TypeError, h)
          | VRef b \<Rightarrow>
             (case get_prop h obj1 p of
                Inl e \<Rightarrow> (Inl e, h)
              | Inr t \<Rightarrow>
                 (case rec t v h of
                    (Inl e, h') \<Rightarrow> (Inl e, h')
                  | (Inr r, h') \<Rightarrow>
                     (case set_prop h' obj1 p r of
                        Inl e \<Rightarrow> (Inl e, h')
                      | Inr h'' \<Rightarrow> (Inr (), h''))))
          | _ \<Rightarrow>
             (case set_prop h obj1 p v of
                Inl e \<Rightarrow> (Inl e, h)
              | Inr h' \<Rightarrow> (Inr (), h'))))"

text \<open>The \<^verbatim>\<open>catch\<close> block: \<^verbatim>\<open>obj1[p] = obj2[p]\<close>, which can throw in turn.\<close>

definition merge_catch :: "val \<Rightarrow> val \<Rightarrow> string \<Rightarrow> heap \<Rightarrow> exn + heap" where
  "merge_catch obj1 obj2 p h =
     (case get_prop h obj2 p of
        Inl e \<Rightarrow> Inl e
      | Inr v \<Rightarrow> set_prop h obj1 p v)"

fun merge_loop :: "merge_fn \<Rightarrow> val \<Rightarrow> val \<Rightarrow> string list \<Rightarrow> heap \<Rightarrow> (exn + val) \<times> heap" where
  "merge_loop rec obj1 obj2 [] h = (Inr obj1, h)"
| "merge_loop rec obj1 obj2 (p # ps) h =
     (case merge_try rec obj1 obj2 p h of
        (Inr u, h') \<Rightarrow> merge_loop rec obj1 obj2 ps h'
      | (Inl e, h') \<Rightarrow>
         (case merge_catch obj1 obj2 p h' of
            Inl e' \<Rightarrow> (Inl e', h')
          | Inr h'' \<Rightarrow> merge_loop rec obj1 obj2 ps h''))"

text \<open>
  The recursion follows references through the store, so it is bounded by the depth of
  the call stack: a call with no room left throws \<^verbatim>\<open>RangeError\<close>, which the caller's
  \<^verbatim>\<open>try\<close> catches like any other exception.
\<close>

definition stack_overflow :: merge_fn where
  "stack_overflow obj1 obj2 h = (Inl RangeError, h)"

primrec mergeRecursive :: "nat \<Rightarrow> merge_fn" where
  "mergeRecursive 0 =
     (\<lambda>obj1 obj2 h. merge_loop stack_overflow obj1 obj2 (own_keys h obj2) h)"
| "mergeRecursive (Suc d) =
     (\<lambda>obj1 obj2 h. merge_loop (mergeRecursive d) obj1 obj2 (own_keys h obj2) h)"

section \<open>The parameter encoder\<close>

text \<open>\<^verbatim>\<open>Array.prototype.join\<close> on an array of strings.\<close>

fun join :: "string \<Rightarrow> string list \<Rightarrow> string" where
  "join sep [] = []"
| "join sep [x] = x"
| "join sep (x # y # ys) = x @ sep @ join sep (y # ys)"

definition parameterizePrimitive :: "platform \<Rightarrow> string \<Rightarrow> val \<Rightarrow> exn + string" where
  "parameterizePrimitive P key v =
     and_then (encodeURIComponent P (VStr key)) (\<lambda>k.
     and_then (encodeURIComponent P v) (\<lambda>s. Inr (k @ ''='' @ s)))"

fun array_loop :: "platform \<Rightarrow> string \<Rightarrow> val list \<Rightarrow> string list \<Rightarrow> exn + string list" where
  "array_loop P key [] acc = Inr acc"
| "array_loop P key (x # xs) acc =
     and_then (encodeURIComponent P (VStr key)) (\<lambda>k.
     and_then (encodeURIComponent P x) (\<lambda>s.
     array_loop P key xs (acc @ [k @ ''[]='' @ s])))"

fun object_loop :: "platform \<Rightarrow> heap \<Rightarrow> string \<Rightarrow> val \<Rightarrow> string list \<Rightarrow> string list \<Rightarrow> exn + string list" where
  "object_loop P h key v [] acc = Inr acc"
| "object_loop P h key v (subkey # ks) acc =
     and_then (encodeURIComponent P (VStr key)) (\<lambda>k.
     and_then (encodeURIComponent P (VStr subkey)) (\<lambda>sk.
     and_then (get_prop h v subkey) (\<lambda>x.
     and_then (encodeURIComponent P x) (\<lambda>s.
     object_loop P h key v ks (acc @ [k @ ''['' @ sk @ '']='' @ s])))))"

definition parameterizeObject :: "platform \<Rightarrow> heap \<Rightarrow> string \<Rightarrow> val \<Rightarrow> exn + string" where
  "parameterizeObject P h key v =
     and_then
       (case v of
          VArr xs \<Rightarrow> array_loop P key xs []
        | _ \<Rightarrow> object_loop P h key v (own_keys h v) [])
       (\<lambda>params. Inr (join ''&'' params))"

definition parameterize :: "platform \<Rightarrow> heap \<Rightarrow> string \<Rightarrow> val \<Rightarrow> exn + string" where
  "parameterize P h key v =
     (let type = typeof v in
      if type = ''string'' \<or> type = ''number'' \<or> type = ''boolean''
        then parameterizePrimitive P key v
      else if type = ''undefined''
        then parameterizePrimitive P key (VStr '''')
      else if type = ''object''
        then (if v = Null then parameterizePrimitive P key v else parameterizeObject P h key v)
      else Inl (Error (''Unable to parameterize key '' @ key @ '' with type '' @ type)))"

section \<open>Call records and the wire body\<close>

record call =
  method_name :: string
  params :: val
  deferred :: nat
  timeStart :: "nat \<times> nat"

text \<open>
  \<^verbatim>\<open>deferred\<close> names the promise whose \<^verbatim>\<open>resolve\<close> and \<^verbatim>\<open>reject\<close> the record holds.
  \<^verbatim>\<open>stringifyCall\<close> skips a parameter whose value is \<^verbatim>\<open>null\<close>.
\<close>

fun call_loop :: "platform \<Rightarrow> heap \<Rightarrow> val \<Rightarrow> string list \<Rightarrow> string list \<Rightarrow> exn + string list" where
  "call_loop P h ps [] acc = Inr acc"
| "call_loop P h ps (key # keys) acc =
     and_then (get_prop h ps key) (\<lambda>v.
       if v \<noteq> Null
       then and_then (parameterize P h key v) (\<lambda>s. call_loop P h ps keys (acc @ [s]))
       else call_loop P h ps keys acc)"

definition stringifyCall :: "platform \<Rightarrow> heap \<Rightarrow> call \<Rightarrow> exn + string" where
  "stringifyCall P h c =
     and_then (encodeURIComponent P (VStr (method_name c))) (\<lambda>m.
     and_then (call_loop P h (params c) (own_keys h (params c)) [''method='' @ m]) (\<lambda>ps.
     Inr (join ''&'' ps)))"

fun queue_loop :: "platform \<Rightarrow> heap \<Rightarrow> call list \<Rightarrow> string list \<Rightarrow> exn + string list" where
  "queue_loop P h [] calls = Inr calls"
| "queue_loop P h (c # cs) calls =
     and_then (stringifyCall P h c) (\<lambda>line. queue_loop P h cs (calls @ [line]))"

definition LF :: string where
  "LF = [CHR 0x0A]"

definition stringifyQueue :: "platform \<Rightarrow> heap \<Rightarrow> call list \<Rightarrow> exn + string" where
  "stringifyQueue P h q =
     and_then (queue_loop P h q []) (\<lambda>calls. Inr (LF @ join LF calls @ LF))"

section \<open>The client and its environment\<close>

datatype outcome = Resolved json | RejectedResult json | RejectedError exn

datatype expiry = At int | Infinity

record centry =
  expires :: expiry
  promise :: nat

datatype returned = Promise nat | CacheEntry centry

datatype directive = CacheTrue | CacheSeconds int

record callback =
  cb_id :: nat
  cb_run :: "call \<Rightarrow> json \<Rightarrow> exn option"

record exchange =
  body :: string
  batch :: "call list"
  answered :: bool

datatype obs = Notified nat nat json | Settled nat outcome

text \<open>
  What one call of \<^verbatim>\<open>execute\<close> reads from outside: whether \<^verbatim>\<open>Math.random()\<close> came out
  above 0.99, the three readings of the clock, and the time stamp of the record.
\<close>

record env =
  random_high :: bool
  now_sweep :: int
  now_lookup :: int
  now_store :: int
  hrtime :: "nat \<times> nat"

text \<open>
  The fields of the client object, followed by the part of the world it acts on: the
  object store, the promises it created (\<^verbatim>\<open>None\<close> is pending), the timeouts that are
  scheduled, the requests handed to the HTTP adapter, and the log of callback
  invocations and of calls to \<^verbatim>\<open>resolve\<close> and \<^verbatim>\<open>reject\<close>. A callback observes; it does
  not call back into the client.
\<close>

record api =
  options :: val
  queue :: "call list"
  maxQueueSize :: "int option"
  batchTimeout :: "nat option"
  events :: "(string \<times> callback list) list"
  cache :: "(string \<times> centry) list"
  store :: heap
  promises :: "outcome option list"
  timers :: "nat list"
  next_timer :: nat
  posted :: "exchange list"
  trace :: "obs list"

definition settle :: "nat \<Rightarrow> outcome \<Rightarrow> api \<Rightarrow> api" where
  "settle p out s =
     s\<lparr>promises :=
         (if p < length (promises s) \<and> promises s ! p = None
          then (promises s)[p := Some out] else promises s),
       trace := trace s @ [Settled p out]\<rparr>"

definition setMaxQueueSize :: "int option \<Rightarrow> api \<Rightarrow> api" where
  "setMaxQueueSize n s = s\<lparr>maxQueueSize := n\<rparr>"

definition resetQueue :: "api \<Rightarrow> api" where
  "resetQueue s =
     (case batchTimeout s of
        None \<Rightarrow> s
      | Some t \<Rightarrow> s\<lparr>timers := removeAll t (timers s), batchTimeout := None\<rparr>)
     \<lparr>queue := []\<rparr>"

text \<open>
  \<^verbatim>\<open>_postToApi\<close> serialises first; an exception there leaves the client as it was. The
  query string and the headers are not modelled.
\<close>

definition postToApi :: "platform \<Rightarrow> api \<Rightarrow> exn + api" where
  "postToApi P s =
     (case stringifyQueue P (store s) (queue s) of
        Inl e \<Rightarrow> Inl e
      | Inr b \<Rightarrow>
          Inr (resetQueue
            (s\<lparr>posted := posted s @ [\<lparr>body = b, batch = queue s, answered = False\<rparr>]\<rparr>)))"

definition setTimeout :: "api \<Rightarrow> api" where
  "setTimeout s =
     s\<lparr>batchTimeout := Some (next_timer s),
       timers := timers s @ [next_timer s],
       next_timer := Suc (next_timer s)\<rparr>"

definition max_reached :: "api \<Rightarrow> bool" where
  "max_reached s =
     (case maxQueueSize s of
        None \<Rightarrow> False
      | Some n \<Rightarrow> n \<noteq> 0 \<and> n \<le> int (length (queue s)))"

fun expires_before :: "expiry \<Rightarrow> int \<Rightarrow> bool" where
  "expires_before (At t) now = (t < now)"
| "expires_before Infinity now = False"

fun expires_after :: "expiry \<Rightarrow> int \<Rightarrow> bool" where
  "expires_after (At t) now = (now < t)"
| "expires_after Infinity now = True"

definition sweepCache :: "env \<Rightarrow> api \<Rightarrow> api" where
  "sweepCache e s =
     (if random_high e
      then s\<lparr>cache := filter (\<lambda>kc. \<not> expires_before (expires (snd kc)) (now_sweep e)) (cache s)\<rparr>
      else s)"

fun caching :: "directive option \<Rightarrow> bool" where
  "caching None = False"
| "caching (Some CacheTrue) = True"
| "caching (Some (CacheSeconds n)) = (n \<noteq> 0)"

definition cacheKey :: "platform \<Rightarrow> string \<Rightarrow> val \<Rightarrow> directive option \<Rightarrow> api \<Rightarrow> exn + string option" where
  "cacheKey P name prm config s =
     (if caching config
      then and_then (JSON_stringify P (store s) prm) (\<lambda>j. Inr (Some (name @ '':'' @ j)))
      else Inr None)"

definition cache_lookup :: "string option \<Rightarrow> env \<Rightarrow> api \<Rightarrow> centry option \<times> api" where
  "cache_lookup key e s =
     (case key of
        None \<Rightarrow> (None, s)
      | Some k \<Rightarrow>
         (case map_of (cache s) k of
            None \<Rightarrow> (None, s)
          | Some c \<Rightarrow>
             if expires_after (expires c) (now_lookup e) then (Some c, s)
             else (None, s\<lparr>cache := filter (\<lambda>kc. fst kc \<noteq> k) (cache s)\<rparr>)))"

definition cache_store :: "string option \<Rightarrow> directive option \<Rightarrow> env \<Rightarrow> nat \<Rightarrow> api \<Rightarrow> api" where
  "cache_store key config e p s =
     (case key of
        None \<Rightarrow> s
      | Some k \<Rightarrow>
         s\<lparr>cache := assign k
             \<lparr>expires = (case config of
                           Some (CacheSeconds n) \<Rightarrow> At (now_store e + n * 1000)
                         | _ \<Rightarrow> Infinity),
              promise = p\<rparr> (cache s)\<rparr>)"

text \<open>
  The function passed to \<^verbatim>\<open>new Promise\<close>, in two parts: building the record and
  pushing it, then the decision to flush now or to schedule a flush. Each returns the
  exception it ends with, if any; the effects it had before the exception stay.
\<close>

definition enqueue :: "platform \<Rightarrow> string \<Rightarrow> val \<Rightarrow> env \<Rightarrow> nat \<Rightarrow> api \<Rightarrow> exn option \<times> api" where
  "enqueue P name prm e p s =
     (let (fresh, h0) = new_object [] (store s) in
      case get_prop h0 (options s) ''params'' of
        Inl ex \<Rightarrow> (Some ex, s\<lparr>store := h0\<rparr>)
      | Inr fixed \<Rightarrow>
     (case mergeRecursive (call_depth P) fresh fixed h0 of
        (Inl ex, h1) \<Rightarrow> (Some ex, s\<lparr>store := h1\<rparr>)
      | (Inr base, h1) \<Rightarrow>
     (let (arg, h2) = (if truthy prm then (prm, h1) else new_object [] h1) in
      case mergeRecursive (call_depth P) base arg h2 of
        (Inl ex, h3) \<Rightarrow> (Some ex, s\<lparr>store := h3\<rparr>)
      | (Inr merged, h3) \<Rightarrow>
          (None, s\<lparr>store := h3,
                   queue := queue s @
                     [\<lparr>method_name = name, params = merged, deferred = p, timeStart = hrtime e\<rparr>]\<rparr>))))"

definition schedule :: "platform \<Rightarrow> api \<Rightarrow> exn option \<times> api" where
  "schedule P s =
     (if max_reached s
      then (case postToApi P s of Inl ex \<Rightarrow> (Some ex, s) | Inr s' \<Rightarrow> (None, s'))
      else if batchTimeout s = None then (None, setTimeout s)
      else (None, s))"

definition executor :: "platform \<Rightarrow> string \<Rightarrow> val \<Rightarrow> env \<Rightarrow> nat \<Rightarrow> api \<Rightarrow> exn option \<times> api" where
  "executor P name prm e p s =
     (case enqueue P name prm e p s of
        (Some ex, s1) \<Rightarrow> (Some ex, s1)
      | (None, s1) \<Rightarrow> schedule P s1)"

definition method_required :: exn where
  "method_required = Error ''Method is required to execute API calls''"

definition execute :: "platform \<Rightarrow> val \<Rightarrow> val \<Rightarrow> directive option \<Rightarrow> env \<Rightarrow> api \<Rightarrow> (exn + returned) \<times> api" where
  "execute P m prm config e s =
     (if \<not> truthy m \<or> typeof m \<noteq> ''string'' then (Inl method_required, s)
      else
        let name = (case m of VStr n \<Rightarrow> n | _ \<Rightarrow> []);
            s1 = sweepCache e s
        in case cacheKey P name prm config s1 of
             Inl ex \<Rightarrow> (Inl ex, s1)
           | Inr key \<Rightarrow>
              (case cache_lookup key e s1 of
                 (Some c, s2) \<Rightarrow> (Inr (CacheEntry c), s2)
               | (None, s2) \<Rightarrow>
                  let p = length (promises s2);
                      (thrown, s3) = executor P name prm e p (s2\<lparr>promises := promises s2 @ [None]\<rparr>);
                      s4 = (case thrown of None \<Rightarrow> s3 | Some ex \<Rightarrow> settle p (RejectedError ex) s3)
                  in (Inr (Promise p), cache_store key config e p s4)))"

definition on :: "string \<Rightarrow> callback \<Rightarrow> api \<Rightarrow> api" where
  "on stat cb s =
     s\<lparr>events :=
         assign stat ((case map_of (events s) stat of None \<Rightarrow> [] | Some cbs \<Rightarrow> cbs) @ [cb])
           (events s)\<rparr>"

section \<open>Parsing the response and settling the batch\<close>

text \<open>The values \<^verbatim>\<open>for (var i in responses)\<close> visits, as \<^verbatim>\<open>responses[i]\<close>.\<close>

fun members :: "json \<Rightarrow> json list" where
  "members (JArr xs) = xs"
| "members (JObj kvs) = map snd kvs"
| "members (JStr s) = map (\<lambda>c. JStr [c]) s"
| "members _ = []"

fun text_of :: "platform \<Rightarrow> json \<Rightarrow> string" where
  "text_of P (JStr s) = s"
| "text_of P v = ToString P v"

fun parse_loop :: "platform \<Rightarrow> json list \<Rightarrow> json list \<Rightarrow> exn + json list" where
  "parse_loop P [] results = Inr results"
| "parse_loop P (r # rs) results =
     and_then (JSON_parse P (text_of P r)) (\<lambda>v. parse_loop P rs (results @ [v]))"

definition parseResponseBody :: "platform \<Rightarrow> string \<Rightarrow> exn + json list" where
  "parseResponseBody P b =
     and_then (JSON_parse P b) (\<lambda>responses. parse_loop P (members responses) [])"

definition default_result :: json where
  "default_result = JObj [(''result'', JNull), (''stat'', JStr ''ok'')]"

fun stat_of :: "json \<Rightarrow> json option" where
  "stat_of (JObj kvs) = map_of kvs ''stat''"
| "stat_of _ = None"

fun jtruthy :: "json \<Rightarrow> bool" where
  "jtruthy JNull = False"
| "jtruthy (JBool b) = b"
| "jtruthy (JNum n) = (n \<noteq> 0)"
| "jtruthy (JStr s) = (s \<noteq> [])"
| "jtruthy _ = True"

text \<open>\<^verbatim>\<open>result.stat\<close> when it is truthy.\<close>

definition stat_tag :: "json \<Rightarrow> json option" where
  "stat_tag r =
     (case stat_of r of
        None \<Rightarrow> None
      | Some st \<Rightarrow> if jtruthy st then Some st else None)"

definition result_at :: "json list \<Rightarrow> nat \<Rightarrow> json" where
  "result_at results i =
     (if i < length results \<and> results ! i \<noteq> JNull then results ! i else default_result)"

definition subscribers :: "platform \<Rightarrow> api \<Rightarrow> json \<Rightarrow> callback list" where
  "subscribers P s r =
     (case stat_tag r of
        None \<Rightarrow> []
      | Some st \<Rightarrow>
         (case map_of (events s) (text_of P st) of None \<Rightarrow> [] | Some cbs \<Rightarrow> cbs))"

fun notify :: "callback list \<Rightarrow> call \<Rightarrow> json \<Rightarrow> api \<Rightarrow> exn option \<times> api" where
  "notify [] c r s = (None, s)"
| "notify (cb # cbs) c r s =
     (let s' = s\<lparr>trace := trace s @ [Notified (cb_id cb) (deferred c) r]\<rparr>
      in case cb_run cb c r of
           Some e \<Rightarrow> (Some e, s')
         | None \<Rightarrow> notify cbs c r s')"

text \<open>\<^verbatim>\<open>if (result.stat && result.stat !== 'ok') reject(result) else resolve(result)\<close>\<close>

definition verdict :: "json \<Rightarrow> outcome" where
  "verdict r =
     (if stat_tag r \<noteq> None \<and> stat_of r \<noteq> Some (JStr ''ok'')
      then RejectedResult r else Resolved r)"

definition settle_with :: "call \<Rightarrow> json \<Rightarrow> api \<Rightarrow> api" where
  "settle_with c r s = settle (deferred c) (verdict r) s"

fun resolve_loop :: "platform \<Rightarrow> call list \<Rightarrow> nat \<Rightarrow> json list \<Rightarrow> api \<Rightarrow> exn option \<times> api" where
  "resolve_loop P [] i results s = (None, s)"
| "resolve_loop P (c # cs) i results s =
     (let r = result_at results i
      in case notify (subscribers P s r) c r s of
           (Some e, s') \<Rightarrow> (Some e, s')
         | (None, s') \<Rightarrow> resolve_loop P cs (Suc i) results (settle_with c r s'))"

definition resolveQueue :: "platform \<Rightarrow> call list \<Rightarrow> json list \<Rightarrow> api \<Rightarrow> exn option \<times> api" where
  "resolveQueue P q results s = resolve_loop P q 0 results s"

fun rejectQueue :: "call list \<Rightarrow> exn \<Rightarrow> api \<Rightarrow> api" where
  "rejectQueue [] err s = s"
| "rejectQueue (c # cs) err s = rejectQueue cs err (settle (deferred c) (RejectedError err) s)"

text \<open>
  The chain \<^verbatim>\<open>.then(parseResponseBody).then(resolveQueue).catch(rejectQueue)\<close> that
  \<^verbatim>\<open>_postToApi\<close> hangs on the adapter's promise, run on the adapter's outcome.
\<close>

datatype reply = Failed exn | Replied string

definition on_reply :: "platform \<Rightarrow> call list \<Rightarrow> reply \<Rightarrow> api \<Rightarrow> api" where
  "on_reply P q r s =
     (case r of
        Failed err \<Rightarrow> rejectQueue q err s
      | Replied b \<Rightarrow>
         (case parseResponseBody P b of
            Inl err \<Rightarrow> rejectQueue q err s
          | Inr results \<Rightarrow>
             (case resolveQueue P q results s of
                (Some err, s') \<Rightarrow> rejectQueue q err s'
              | (None, s') \<Rightarrow> s')))"

section \<open>Construction and runs\<close>

text \<open>
  The constructor merges the caller's options into the defaults. The track identifier
  comes from \<^verbatim>\<open>Math.random()\<close> and is an input here. \<^verbatim>\<open>options.cookies\<close> is read on the
  caller's \<^verbatim>\<open>options\<close>, so a missing \<^verbatim>\<open>options\<close> makes the constructor throw. The
  cookies and the timeout handed to the adapter are not modelled.
\<close>

definition TaggedApi :: "platform \<Rightarrow> string \<Rightarrow> val \<Rightarrow> heap \<Rightarrow> exn + api" where
  "TaggedApi P track opts h =
     (let (q, h1) = new_object [] h;
          (p, h2) = new_object [(''track'', VStr track)] h1;
          (d, h3) = new_object [(''query'', q), (''params'', p), (''timeout'', VNum 10000)] h2;
          (arg, h4) = (if truthy opts then (opts, h3) else new_object [] h3)
      in case mergeRecursive (call_depth P) d arg h4 of
           (Inl e, h5) \<Rightarrow> Inl e
         | (Inr merged, h5) \<Rightarrow>
            (case get_prop h5 opts ''cookies'' of
               Inl e \<Rightarrow> Inl e
             | Inr c \<Rightarrow>
                Inr \<lparr>options = merged, queue = [], maxQueueSize = None, batchTimeout = None,
                     events = [], cache = [], store = h5, promises = [], timers = [],
                     next_timer = 0, posted = [], trace = []\<rparr>))"

text \<open>
  Object literals, as a caller writes them: evaluating one allocates fresh objects.
\<close>

datatype lit =
    LUndefined
  | LNull
  | LBool bool
  | LNum int
  | LStr string
  | LFun nat
  | LSym nat
  | LArr "lit list"
  | LObj "(string \<times> lit) list"

fun alloc :: "lit \<Rightarrow> heap \<Rightarrow> val \<times> heap"
  and alloc_elems :: "lit list \<Rightarrow> heap \<Rightarrow> val list \<times> heap"
  and alloc_props :: "(string \<times> lit) list \<Rightarrow> props \<Rightarrow> heap \<Rightarrow> props \<times> heap" where
  "alloc LUndefined h = (Undefined, h)"
| "alloc LNull h = (Null, h)"
| "alloc (LBool b) h = (VBool b, h)"
| "alloc (LNum n) h = (VNum n, h)"
| "alloc (LStr s) h = (VStr s, h)"
| "alloc (LFun f) h = (VFun f, h)"
| "alloc (LSym y) h = (VSym y, h)"
| "alloc (LArr ls) h = (let (vs, h') = alloc_elems ls h in (VArr vs, h'))"
| "alloc (LObj kls) h = (let (ps, h') = alloc_props kls [] h in new_object ps h')"
| "alloc_elems [] h = ([], h)"
| "alloc_elems (l # ls) h =
     (let (v, h') = alloc l h; (vs, h'') = alloc_elems ls h' in (v # vs, h''))"
| "alloc_props [] acc h = (acc, h)"
| "alloc_props (kl # kls) acc h =
     (let (v, h') = alloc (snd kl) h in alloc_props kls (assign (fst kl) v acc) h')"

text \<open>
  What can happen to a client: a caller executes a call, the pending timeout fires, the
  adapter settles the promise of an exchange, a caller sets the queue limit or
  registers a callback. An exception that escapes \<^verbatim>\<open>execute\<close> or the timeout handler
  goes to the caller or to the event loop; the client keeps the state it had reached.
\<close>

datatype event =
    Execute val lit "directive option" env
  | Timeout nat
  | Reply nat reply
  | SetMaxQueueSize "int option"
  | On string callback

fun step :: "platform \<Rightarrow> event \<Rightarrow> api \<Rightarrow> api" where
  "step P (Execute m l config e) s =
     (let (prm, h) = alloc l (store s) in snd (execute P m prm config e (s\<lparr>store := h\<rparr>)))"
| "step P (Timeout t) s =
     (if t \<in> set (timers s)
      then (let s' = s\<lparr>timers := removeAll t (timers s)\<rparr>
            in case postToApi P s' of Inl e \<Rightarrow> s' | Inr s'' \<Rightarrow> s'')
      else s)"
| "step P (Reply i r) s =
     (if i < length (posted s) \<and> \<not> answered (posted s ! i)
      then on_reply P (batch (posted s ! i)) r
             (s\<lparr>posted := (posted s)[i := (posted s ! i)\<lparr>answered := True\<rparr>]\<rparr>)
      else s)"
| "step P (SetMaxQueueSize n) s = setMaxQueueSize n s"
| "step P (On stat cb) s = on stat cb s"

fun run :: "platform \<Rightarrow> event list \<Rightarrow> api \<Rightarrow> api" where
  "run P [] s = s"
| "run P (ev # evs) s = run P evs (step P ev s)"

section \<open>Notions used in the statements\<close>

text \<open>Running a list of computations in order, stopping at the first exception.\<close>

fun collect :: "(exn + 'a) list \<Rightarrow> exn + 'a list" where
  "collect [] = Inr []"
| "collect (m # ms) = and_then m (\<lambda>x. and_then (collect ms) (\<lambda>xs. Inr (x # xs)))"

definition prop_value :: "heap \<Rightarrow> nat \<Rightarrow> string \<Rightarrow> val" where
  "prop_value h a k = (case map_of (props_of h a) k of Some v \<Rightarrow> v | None \<Rightarrow> Undefined)"

text \<open>The strings \<^verbatim>\<open>stringifyCall\<close> pushes after the \<^verbatim>\<open>method=\<close> entry.\<close>

definition encoded_pairs :: "platform \<Rightarrow> heap \<Rightarrow> call \<Rightarrow> exn + string list" where
  "encoded_pairs P h c = call_loop P h (params c) (own_keys h (params c)) []"




text \<open>Two states that differ at most in the promises and the log.\<close>

definition settles_only :: "api \<Rightarrow> api \<Rightarrow> bool" where
  "settles_only s s' =
     (options s' = options s \<and> queue s' = queue s \<and> maxQueueSize s' = maxQueueSize s \<and>
      batchTimeout s' = batchTimeout s \<and> events s' = events s \<and> cache s' = cache s \<and>
      store s' = store s \<and> timers s' = timers s \<and> next_timer s' = next_timer s \<and>
      posted s' = posted s \<and> length (promises s') = length (promises s))"

text \<open>Two states that differ at most in the cache, the promises and the log.\<close>

definition bookkeeping :: "api \<Rightarrow> api \<Rightarrow> bool" where
  "bookkeeping s s' =
     (options s' = options s \<and> queue s' = queue s \<and> maxQueueSize s' = maxQueueSize s \<and>
      batchTimeout s' = batchTimeout s \<and> events s' = events s \<and>
      store s' = store s \<and> timers s' = timers s \<and> next_timer s' = next_timer s \<and>
      posted s' = posted s)"

text \<open>
  The timeouts that are scheduled: none, or the one \<^verbatim>\<open>_batchTimeout\<close> names.
\<close>

definition timer_inv :: "api \<Rightarrow> bool" where
  "timer_inv s = (timers s = [] \<or> map Some (timers s) = [batchTimeout s])"


section \<open>Sharing in the store\<close>

text \<open>The addresses a value holds, and those the properties of an object hold.\<close>

fun ref_list :: "val \<Rightarrow> nat list" where
  "ref_list (VRef a) = [a]"
| "ref_list (VArr xs) = concat (map ref_list xs)"
| "ref_list v = []"

definition refs :: "val \<Rightarrow> nat set" where
  "refs v = set (ref_list v)"

definition children :: "heap \<Rightarrow> nat \<Rightarrow> nat set" where
  "children h x = (\<Union>kv\<in>set (props_of h x). refs (snd kv))"


text \<open>
  The objects of \<^verbatim>\<open>A\<close> are held by no object outside \<^verbatim>\<open>D\<close>: nothing reaches them through
  a property of another object.
\<close>

definition sep :: "heap \<Rightarrow> nat set \<Rightarrow> nat set \<Rightarrow> bool" where
  "sep h A D = (\<forall>x. x \<notin> D \<longrightarrow> children h x \<inter> A = {})"

text \<open>
  The store \<^verbatim>\<open>h'\<close> is \<^verbatim>\<open>h\<close> with new objects after it, and a new object holds only
  new objects allocated before it.
\<close>

definition extends :: "heap \<Rightarrow> heap \<Rightarrow> bool" where
  "extends h h' =
     (\<exists>ext. h' = h @ ext \<and>
        (\<forall>i<length ext. \<forall>kv\<in>set (ext ! i). refs (snd kv) \<subseteq> {length h..<length h + i}))"



section \<open>The track identifier\<close>

text \<open>The pair \<^verbatim>\<open>track=<id>\<close> as the encoder writes it.\<close>

definition track_pair :: "platform \<Rightarrow> string \<Rightarrow> string option" where
  "track_pair P ident =
     (case encodeURIComponent P (VStr ''track'') of
        Inl e \<Rightarrow> None
      | Inr k \<Rightarrow>
         (case encodeURIComponent P (VStr ident) of
            Inl e \<Rightarrow> None
          | Inr v \<Rightarrow> Some (k @ ''='' @ v)))"

text \<open>
  The body of the exchange is made of one line for each record of its batch, and the
  pairs of every line include the track pair.
\<close>

definition carries :: "platform \<Rightarrow> string \<Rightarrow> exchange \<Rightarrow> bool" where
  "carries P ident x =
     (\<exists>lines. length lines = length (batch x) \<and>
        body x = LF @ join LF (map (join ''&'') lines) @ LF \<and>
        list_all (\<lambda>pairs. \<exists>pair. track_pair P ident = Some pair \<and> pair \<in> set pairs) lines)"











section \<open>A platform and a client for the worked examples\<close>

text \<open>
  A stand-in for the built-ins, right on the values the examples pass: strings of
  unreserved characters (which \<^verbatim>\<open>encodeURIComponent\<close> leaves alone), integers,
  \<^verbatim>\<open>null\<close>, \<^verbatim>\<open>undefined\<close>, booleans, plain objects and symbols; the empty object and
  \<^verbatim>\<open>undefined\<close> for \<^verbatim>\<open>JSON.stringify\<close>; and four response texts named by a letter for
  \<^verbatim>\<open>JSON.parse\<close>. Elsewhere it throws.
\<close>

fun decimal :: "nat \<Rightarrow> string" where
  "decimal n =
     (if n < 10 then [''0123456789'' ! n]
      else decimal (n div 10) @ [''0123456789'' ! (n mod 10)])"

fun demo_encode :: "val \<Rightarrow> exn + string" where
  "demo_encode (VStr s) = Inr s"
| "demo_encode (VNum n) = Inr (if n < 0 then ''-'' @ decimal (nat (- n)) else decimal (nat n))"
| "demo_encode Null = Inr ''null''"
| "demo_encode Undefined = Inr ''undefined''"
| "demo_encode (VBool b) = Inr (if b then ''true'' else ''false'')"
| "demo_encode (VRef a) = Inr ''%5Bobject%20Object%5D''"
| "demo_encode (VSym y) = Inl TypeError"
| "demo_encode v = Inl URIError"

fun demo_stringify :: "heap \<Rightarrow> val \<Rightarrow> exn + string" where
  "demo_stringify h Undefined = Inr ''undefined''"
| "demo_stringify h (VRef a) = (if props_of h a = [] then Inr ''{}'' else Inl (Thrown 0))"
| "demo_stringify h v = Inl (Thrown 0)"

definition demo_parse :: "string \<Rightarrow> exn + json" where
  "demo_parse t =
     (if t = ''A'' then Inr (JArr [JStr ''K''])
      else if t = ''B'' then Inr (JArr [JStr ''E''])
      else if t = ''K'' then Inr (JObj [(''stat'', JStr ''ok'')])
      else if t = ''E'' then Inr (JObj [(''stat'', JStr [])])
      else Inl SyntaxError)"

definition demo :: platform where
  "demo = \<lparr>encodeURIComponent = demo_encode, JSON_stringify = demo_stringify,
            JSON_parse = demo_parse, ToString = (\<lambda>j. ''[object Object]''), call_depth = 8\<rparr>"

definition blank :: api where
  "blank = \<lparr>options = Undefined, queue = [], maxQueueSize = None, batchTimeout = None,
             events = [], cache = [], store = [], promises = [], timers = [],
             next_timer = 0, posted = [], trace = []\<rparr>"

text \<open>The client \<^verbatim>\<open>new TaggedApi(endpoint, options, http)\<close> with track identifier \<^verbatim>\<open>T\<close>.\<close>

definition client :: "lit \<Rightarrow> api" where
  "client l =
     (let (opts, h) = alloc l []
      in case TaggedApi demo ''T'' opts h of Inl e \<Rightarrow> blank | Inr s \<Rightarrow> s)"

definition at :: "int \<Rightarrow> env" where
  "at t = \<lparr>random_high = False, now_sweep = t, now_lookup = t, now_store = t, hrtime = (0, 0)\<rparr>"





section \<open>The wire format\<close>

lemma and_then_Inl [simp]: "and_then (Inl e) f = Inl e"
  by (simp add: and_then_def)

lemma and_then_Inr [simp]: "and_then (Inr x) f = f x"
  by (simp add: and_then_def)

lemma and_then_assoc: "and_then (and_then m f) g = and_then m (\<lambda>x. and_then (f x) g)"
  by (cases m) simp_all

lemma and_then_unit [simp]: "and_then m Inr = m"
  by (cases m) simp_all

lemma call_loop_acc:
  "call_loop P h ps keys acc = and_then (call_loop P h ps keys []) (\<lambda>xs. Inr (acc @ xs))"
proof (induction keys arbitrary: acc)
  case Nil
  show ?case by simp
next
  case (Cons k keys)
  have a: "call_loop P h ps keys (acc @ [s]) =
      and_then (call_loop P h ps keys []) (\<lambda>xs. Inr (acc @ s # xs))" for s
    using Cons.IH [of "acc @ [s]"] by simp
  have b: "call_loop P h ps keys [s] =
      and_then (call_loop P h ps keys []) (\<lambda>xs. Inr (s # xs))" for s
    using Cons.IH [of "[s]"] by simp
  show ?case
  proof (cases "get_prop h ps k")
    case (Inl e)
    then show ?thesis by simp
  next
    case (Inr v)
    show ?thesis
    proof (cases "v = Null")
      case True
      with Inr show ?thesis using Cons.IH [of acc] by simp
    next
      case False
      with Inr show ?thesis
        by (cases "parameterize P h k v") (simp_all add: a b and_then_assoc)
    qed
  qed
qed

lemma queue_loop_acc:
  "queue_loop P h q acc = and_then (queue_loop P h q []) (\<lambda>xs. Inr (acc @ xs))"
proof (induction q arbitrary: acc)
  case Nil
  show ?case by simp
next
  case (Cons c q)
  have a: "queue_loop P h q (acc @ [s]) =
      and_then (queue_loop P h q []) (\<lambda>xs. Inr (acc @ s # xs))" for s
    using Cons.IH [of "acc @ [s]"] by simp
  have b: "queue_loop P h q [s] =
      and_then (queue_loop P h q []) (\<lambda>xs. Inr (s # xs))" for s
    using Cons.IH [of "[s]"] by simp
  show ?case
    by (cases "stringifyCall P h c") (simp_all add: a b and_then_assoc)
qed

lemma queue_loop_collect: "queue_loop P h q [] = collect (map (stringifyCall P h) q)"
proof (induction q)
  case Nil
  show ?case by simp
next
  case (Cons c q)
  have "queue_loop P h q [s] = and_then (queue_loop P h q []) (\<lambda>xs. Inr (s # xs))" for s
    using queue_loop_acc [of P h q "[s]"] by simp
  with Cons show ?case by simp
qed

lemma call_loop_collect:
  "call_loop P h (VRef a) keys [] =
     collect (map (\<lambda>k. parameterize P h k (prop_value h a k))
       (filter (\<lambda>k. prop_value h a k \<noteq> Null) keys))"
proof (induction keys)
  case Nil
  show ?case by simp
next
  case (Cons k keys)
  have "call_loop P h (VRef a) keys [s] =
      and_then (call_loop P h (VRef a) keys []) (\<lambda>xs. Inr (s # xs))" for s
    using call_loop_acc [of P h "VRef a" keys "[s]"] by simp
  with Cons show ?case by (simp add: prop_value_def)
qed

lemma stringifyCall_pairs:
  "stringifyCall P h c =
     and_then (encodeURIComponent P (VStr (method_name c))) (\<lambda>m.
     and_then (encoded_pairs P h c) (\<lambda>pairs.
     Inr (join ''&'' ((''method='' @ m) # pairs))))"
proof -
  have "call_loop P h ps keys [x] =
      and_then (call_loop P h ps keys []) (\<lambda>xs. Inr (x # xs))" for ps keys x
    using call_loop_acc [of P h ps keys "[x]"] by simp
  then show ?thesis
    by (simp add: stringifyCall_def encoded_pairs_def and_then_assoc)
qed

text \<open>
  Claim C8. The body \<^verbatim>\<open>stringifyQueue\<close> produces is a newline, then the lines of the
  calls joined by newlines, then a newline; the line of a call is \<^verbatim>\<open>method=\<close> with the
  encoded method name, followed by the encoded parameter pairs of the call, all joined
  by \<^verbatim>\<open>&\<close>. An exception of the encoder ends the serialisation.
\<close>

theorem wire_body_format:
  "stringifyQueue P h q =
     and_then (collect (map (stringifyCall P h) q)) (\<lambda>lines. Inr (LF @ join LF lines @ LF))
   \<and> stringifyCall P h c =
     and_then (encodeURIComponent P (VStr (method_name c))) (\<lambda>m.
     and_then (encoded_pairs P h c) (\<lambda>pairs.
     Inr (join ''&'' ((''method='' @ m) # pairs))))"
  using stringifyCall_pairs [of P h c]
  by (simp add: stringifyQueue_def queue_loop_collect)

theorem wire_body_format_witness:
  "stringifyQueue demo [[(''a'', VStr ''x''), (''n'', VNum 42)], []]
     [\<lparr>method_name = ''get'', params = VRef 0, deferred = 0, timeStart = (0, 0)\<rparr>,
      \<lparr>method_name = ''put'', params = VRef 1, deferred = 1, timeStart = (0, 0)\<rparr>]
   = Inr (LF @ ''method=get&a=x&n=42'' @ LF @ ''method=put'' @ LF)"
  apply (subst conjunct1 [OF wire_body_format])
  apply code_simp
  done

text \<open>
  Claim C4, as the code has it. A parameter whose value is \<^verbatim>\<open>null\<close> is left out of the
  line: the pairs of a call are the encodings of exactly the parameters whose value is
  not \<^verbatim>\<open>null\<close>, in the order of the keys. An \<^verbatim>\<open>undefined\<close> value is encoded as the key
  with the encoding of the empty string.
\<close>

theorem null_parameter_omitted:
  assumes "params c = VRef a"
  shows "stringifyCall P h c =
     and_then (encodeURIComponent P (VStr (method_name c))) (\<lambda>m.
     and_then (collect (map (\<lambda>k. parameterize P h k (prop_value h a k))
                 (filter (\<lambda>k. prop_value h a k \<noteq> Null) (own_keys h (VRef a))))) (\<lambda>pairs.
     Inr (join ''&'' ((''method='' @ m) # pairs))))
   \<and> parameterize P h k Undefined = parameterizePrimitive P k (VStr [])"
  using assms stringifyCall_pairs [of P h c] call_loop_collect [of P h a "own_keys h (VRef a)"]
  by (simp add: encoded_pairs_def parameterize_def)

theorem null_parameter_omitted_witness:
  "stringifyCall demo [[(''a'', Null), (''b'', Undefined), (''c'', VStr ''x'')]]
     \<lparr>method_name = ''get'', params = VRef 0, deferred = 0, timeStart = (0, 0)\<rparr>
   = Inr ''method=get&b=&c=x''"
  apply (subst conjunct1 [OF null_parameter_omitted [where a = 0]])
   apply simp
  apply code_simp
  done

theorem null_parameter_counterexample:
  "map body (posted (run demo
      [Execute (VStr ''get'') (LObj [(''a'', LNull), (''b'', LUndefined)]) None (at 0), Timeout 0]
      (client (LObj []))))
   = [LF @ ''method=get&track=T&b='' @ LF]"
  by code_simp

section \<open>Settling a batch\<close>

lemma settle_promises:
  "promises (settle p out s) =
     (if p < length (promises s) \<and> promises s ! p = None
      then (promises s)[p := Some out] else promises s)"
  by (simp add: settle_def)

lemma settle_other [simp]:
  "events (settle p out s) = events s"
  "trace (settle p out s) = trace s @ [Settled p out]"
  "length (promises (settle p out s)) = length (promises s)"
  by (simp_all add: settle_def)













lemma rejectQueue_length [simp]: "length (promises (rejectQueue q e s)) = length (promises s)"
  by (induction q arbitrary: s) simp_all












section \<open>The flush timer\<close>

lemma settles_only_refl [simp]: "settles_only s s"
  by (simp add: settles_only_def)

lemma settles_only_trans: "settles_only s s1 \<Longrightarrow> settles_only s1 s2 \<Longrightarrow> settles_only s s2"
  by (simp add: settles_only_def)

lemma settle_only: "settles_only s (settle p out s)"
  by (simp add: settles_only_def settle_def)

lemma notify_only: "notify cbs c r s = (x, s') \<Longrightarrow> settles_only s s'"
proof (induction cbs arbitrary: s)
  case Nil
  then show ?case by simp
next
  case (Cons cb cbs)
  show ?case
  proof (cases "cb_run cb c r")
    case None
    with Cons.prems have "notify cbs c r (s\<lparr>trace := trace s @ [Notified (cb_id cb) (deferred c) r]\<rparr>) = (x, s')"
      by (simp add: Let_def)
    from Cons.IH [OF this] show ?thesis by (simp add: settles_only_def)
  next
    case (Some e)
    with Cons.prems show ?thesis by (auto simp: Let_def settles_only_def)
  qed
qed

lemma resolve_loop_only: "resolve_loop P q k results s = (x, s') \<Longrightarrow> settles_only s s'"
proof (induction q arbitrary: k s)
  case Nil
  then show ?case by simp
next
  case (Cons c cs)
  define r where "r = result_at results k"
  obtain y s1 where n: "notify (subscribers P s r) c r s = (y, s1)"
    by (cases "notify (subscribers P s r) c r s")
  note a = notify_only [OF n]
  show ?case
  proof (cases y)
    case (Some e)
    with Cons.prems n a show ?thesis by (simp add: r_def Let_def)
  next
    case None
    with Cons.prems n
    have "resolve_loop P cs (Suc k) results (settle_with c r s1) = (x, s')"
      by (simp add: r_def Let_def)
    from Cons.IH [OF this] have "settles_only (settle_with c r s1) s'" .
    with a settle_only [of s1 "deferred c" "verdict r"] show ?thesis
      unfolding settle_with_def by (blast intro: settles_only_trans)
  qed
qed

lemma rejectQueue_only: "settles_only s (rejectQueue q e s)"
proof (induction q arbitrary: s)
  case Nil
  show ?case by simp
next
  case (Cons c cs)
  from Cons.IH [of "settle (deferred c) (RejectedError e) s"] settle_only [of s "deferred c" "RejectedError e"]
  show ?case by (auto intro: settles_only_trans)
qed

lemma on_reply_only: "settles_only s (on_reply P q r s)"
proof (cases r)
  case (Failed e)
  then show ?thesis by (simp add: on_reply_def rejectQueue_only)
next
  case (Replied b)
  show ?thesis
  proof (cases "parseResponseBody P b")
    case (Inl e)
    with Replied show ?thesis by (simp add: on_reply_def rejectQueue_only)
  next
    case (Inr results)
    obtain x s1 where rq: "resolveQueue P q results s = (x, s1)"
      by (cases "resolveQueue P q results s")
    then have a: "settles_only s s1"
      using resolve_loop_only [of P q 0 results s x s1] by (simp add: resolveQueue_def)
    show ?thesis
    proof (cases x)
      case None
      with Replied Inr rq a show ?thesis by (simp add: on_reply_def)
    next
      case (Some e)
      with Replied Inr rq a rejectQueue_only [of s1 q e] show ?thesis
        by (auto simp: on_reply_def intro: settles_only_trans)
    qed
  qed
qed

lemma timer_inv_only: "settles_only s s' \<Longrightarrow> timer_inv s \<Longrightarrow> timer_inv s'"
  by (simp add: settles_only_def timer_inv_def)

lemma timer_inv_fields:
  "timers s' = timers s \<Longrightarrow> batchTimeout s' = batchTimeout s \<Longrightarrow> timer_inv s \<Longrightarrow> timer_inv s'"
  by (simp add: timer_inv_def)

lemma resetQueue_timers:
  "queue (resetQueue s) = [] \<and> batchTimeout (resetQueue s) = None \<and>
   timers (resetQueue s) = filter (\<lambda>t. batchTimeout s \<noteq> Some t) (timers s)"
  by (auto simp: resetQueue_def removeAll_filter_not_eq split: option.splits intro: filter_cong)

lemma postToApi_timers:
  "postToApi P s = Inr s' \<Longrightarrow>
     queue s' = [] \<and> batchTimeout s' = None \<and>
     timers s' = filter (\<lambda>t. batchTimeout s \<noteq> Some t) (timers s)"
  by (auto simp: postToApi_def resetQueue_timers split: sum.splits)

lemma postToApi_inv: "postToApi P s = Inr s' \<Longrightarrow> timer_inv s \<Longrightarrow> timer_inv s'"
  using postToApi_timers [of P s s']
  by (cases "timers s") (auto simp: timer_inv_def)

lemma enqueue_fields:
  "enqueue P name prm e p s = (x, s') \<Longrightarrow>
     timers s' = timers s \<and> batchTimeout s' = batchTimeout s \<and> next_timer s' = next_timer s"
  by (auto simp: enqueue_def Let_def new_object_def split: sum.splits prod.splits if_splits)

lemma schedule_inv: "schedule P s = (x, s') \<Longrightarrow> timer_inv s \<Longrightarrow> timer_inv s'"
  by (auto simp: schedule_def setTimeout_def timer_inv_def dest: postToApi_inv
      split: if_splits sum.splits option.splits)

lemma executor_inv: "executor P name prm e p s = (x, s') \<Longrightarrow> timer_inv s \<Longrightarrow> timer_inv s'"
proof -
  assume a: "executor P name prm e p s = (x, s')" and i: "timer_inv s"
  obtain y s1 where en: "enqueue P name prm e p s = (y, s1)"
    by (cases "enqueue P name prm e p s")
  from enqueue_fields [OF en] i have i1: "timer_inv s1"
    by (simp add: timer_inv_def)
  show ?thesis
  proof (cases y)
    case (Some ex)
    with a en i1 show ?thesis by (simp add: executor_def)
  next
    case None
    with a en have "schedule P s1 = (x, s')" by (simp add: executor_def)
    from schedule_inv [OF this i1] show ?thesis .
  qed
qed

lemma execute_inv: "timer_inv s \<Longrightarrow> timer_inv (snd (execute P m prm config e s))"
proof -
  assume i: "timer_inv s"
  show ?thesis
  proof (cases "\<not> truthy m \<or> typeof m \<noteq> ''string''")
    case True
    with i show ?thesis by (simp add: execute_def)
  next
    case False
    define name where "name = (case m of VStr n \<Rightarrow> n | _ \<Rightarrow> [])"
    define s1 where "s1 = sweepCache e s"
    have i1: "timer_inv s1"
      using i by (simp add: s1_def sweepCache_def timer_inv_def)
    show ?thesis
    proof (cases "cacheKey P name prm config s1")
      case (Inl ex)
      with False i1 show ?thesis by (simp add: execute_def name_def s1_def Let_def)
    next
      case (Inr key)
      obtain hit s2 where cl: "cache_lookup key e s1 = (hit, s2)"
        by (cases "cache_lookup key e s1")
      then have i2: "timer_inv s2"
        using i1 by (auto simp: cache_lookup_def timer_inv_def split: option.splits if_splits)
      show ?thesis
      proof (cases hit)
        case (Some c)
        with False Inr cl i2 show ?thesis by (simp add: execute_def name_def s1_def Let_def)
      next
        case None
        define p where "p = length (promises s2)"
        obtain thrown s3 where ex: "executor P name prm e p (s2\<lparr>promises := promises s2 @ [None]\<rparr>) = (thrown, s3)"
          by (cases "executor P name prm e p (s2\<lparr>promises := promises s2 @ [None]\<rparr>)")
        have "timer_inv (s2\<lparr>promises := promises s2 @ [None]\<rparr>)"
          using i2 by (simp add: timer_inv_def)
        from executor_inv [OF ex this] have i3: "timer_inv s3" .
        define s4 where "s4 = (case thrown of None \<Rightarrow> s3 | Some ex \<Rightarrow> settle p (RejectedError ex) s3)"
        have i4: "timer_inv s4"
          using i3 by (cases thrown) (simp_all add: s4_def timer_inv_def settle_def)
        have "timer_inv (cache_store key config e p s4)"
          using i4 by (cases key) (simp_all add: cache_store_def timer_inv_def)
        with False Inr cl None ex show ?thesis
          by (cases thrown) (simp_all add: execute_def name_def s1_def Let_def p_def s4_def)
      qed
    qed
  qed
qed

lemma step_inv: "timer_inv s \<Longrightarrow> timer_inv (step P ev s)"
proof (cases ev)
  case (Execute m l config e)
  assume i: "timer_inv s"
  obtain prm h where al: "alloc l (store s) = (prm, h)"
    by (cases "alloc l (store s)")
  have "timer_inv (s\<lparr>store := h\<rparr>)"
    using i by (simp add: timer_inv_def)
  from execute_inv [OF this] Execute al show ?thesis by simp
next
  case (Timeout t)
  assume i: "timer_inv s"
  show ?thesis
  proof (cases "t \<in> set (timers s)")
    case False
    with Timeout i show ?thesis by simp
  next
    case True
    define s' where "s' = s\<lparr>timers := removeAll t (timers s)\<rparr>"
    have i': "timer_inv s'"
      using i True by (auto simp: s'_def timer_inv_def split: option.splits)
    show ?thesis
    proof (cases "postToApi P s'")
      case (Inl e)
      with Timeout True i' show ?thesis by (simp add: s'_def)
    next
      case (Inr s'')
      from postToApi_inv [OF this i'] Timeout True Inr show ?thesis by (simp add: s'_def)
    qed
  qed
next
  case (Reply i r)
  assume inv: "timer_inv s"
  show ?thesis
  proof (cases "i < length (posted s) \<and> \<not> answered (posted s ! i)")
    case False
    with Reply inv show ?thesis by auto
  next
    case True
    define s' where "s' = s\<lparr>posted := (posted s)[i := (posted s ! i)\<lparr>answered := True\<rparr>]\<rparr>"
    have "timer_inv s'" using inv by (simp add: s'_def timer_inv_def)
    from timer_inv_only [OF on_reply_only this] Reply True show ?thesis
      by (simp add: s'_def)
  qed
next
  case (SetMaxQueueSize n)
  assume "timer_inv s"
  with SetMaxQueueSize show ?thesis by (simp add: setMaxQueueSize_def timer_inv_def)
next
  case (On stat cb)
  assume "timer_inv s"
  with On show ?thesis by (simp add: on_def timer_inv_def)
qed

lemma run_inv: "timer_inv s \<Longrightarrow> timer_inv (run P evs s)"
  by (induction evs arbitrary: s) (simp_all add: step_inv)

lemma TaggedApi_inv: "TaggedApi P track opts h = Inr s \<Longrightarrow> timer_inv s"
  by (auto simp: TaggedApi_def timer_inv_def Let_def split: prod.splits sum.splits if_splits)

lemma timer_inv_length: "timer_inv s \<Longrightarrow> length (timers s) \<le> 1"
  by (auto simp: timer_inv_def split: option.splits)

lemma client_constructed: "TaggedApi demo ''T'' (VRef 0) [[]] = Inr (client (LObj []))"
proof -
  have "\<not> isl (TaggedApi demo ''T'' (VRef 0) [[]])"
    by code_simp
  then obtain s where s: "TaggedApi demo ''T'' (VRef 0) [[]] = Inr s"
    by (cases "TaggedApi demo ''T'' (VRef 0) [[]]") auto
  then show ?thesis
    by (simp add: client_def new_object_def)
qed

text \<open>
  Claim C7. In every state a client reaches from its construction, the timeouts that are
  scheduled are none or only the one \<^verbatim>\<open>_batchTimeout\<close> names, so at most one. After the
  record is pushed \<^verbatim>\<open>execute\<close> flushes at once when a queue limit is set and reached and
  schedules nothing; otherwise it schedules a timeout only when \<^verbatim>\<open>_batchTimeout\<close> is
  \<^verbatim>\<open>null\<close>. A flush that goes through empties the queue, cancels the timeout
  \<^verbatim>\<open>_batchTimeout\<close> names and sets \<^verbatim>\<open>_batchTimeout\<close> to \<^verbatim>\<open>null\<close>.
\<close>

theorem at_most_one_timer:
  "(TaggedApi P track opts h = Inr s0 \<longrightarrow>
      timer_inv (run P evs s0) \<and> length (timers (run P evs s0)) \<le> 1)
   \<and> executor P name prm e p s =
       (case enqueue P name prm e p s of
          (Some ex, s1) \<Rightarrow> (Some ex, s1)
        | (None, s1) \<Rightarrow> schedule P s1)
   \<and> (max_reached s \<longrightarrow>
        schedule P s = (case postToApi P s of Inl ex \<Rightarrow> (Some ex, s) | Inr s' \<Rightarrow> (None, s')))
   \<and> (\<not> max_reached s \<longrightarrow>
        schedule P s = (None, if batchTimeout s = None then setTimeout s else s))
   \<and> max_reached s = (\<exists>n. maxQueueSize s = Some n \<and> n \<noteq> 0 \<and> n \<le> int (length (queue s)))
   \<and> (postToApi P s = Inr s' \<longrightarrow>
        queue s' = [] \<and> batchTimeout s' = None \<and>
        timers s' = filter (\<lambda>t. batchTimeout s \<noteq> Some t) (timers s))
   \<and> timers (setTimeout s) = timers s @ [next_timer s]
   \<and> batchTimeout (setTimeout s) = Some (next_timer s)"
proof -
  have a: "TaggedApi P track opts h = Inr s0 \<longrightarrow>
      timer_inv (run P evs s0) \<and> length (timers (run P evs s0)) \<le> 1"
    using run_inv [OF TaggedApi_inv] timer_inv_length by blast
  have b: "executor P name prm e p s =
       (case enqueue P name prm e p s of
          (Some ex, s1) \<Rightarrow> (Some ex, s1)
        | (None, s1) \<Rightarrow> schedule P s1)"
    by (simp add: executor_def)
  have c: "max_reached s \<longrightarrow>
        schedule P s = (case postToApi P s of Inl ex \<Rightarrow> (Some ex, s) | Inr s' \<Rightarrow> (None, s'))"
    by (simp add: schedule_def)
  have d: "\<not> max_reached s \<longrightarrow>
        schedule P s = (None, if batchTimeout s = None then setTimeout s else s)"
    by (simp add: schedule_def)
  have e: "max_reached s = (\<exists>n. maxQueueSize s = Some n \<and> n \<noteq> 0 \<and> n \<le> int (length (queue s)))"
    by (cases "maxQueueSize s") (simp_all add: max_reached_def)
  have f: "postToApi P s = Inr s' \<longrightarrow>
        queue s' = [] \<and> batchTimeout s' = None \<and>
        timers s' = filter (\<lambda>t. batchTimeout s \<noteq> Some t) (timers s)"
    using postToApi_timers [of P s s'] by blast
  have g: "timers (setTimeout s) = timers s @ [next_timer s]"
    by (simp add: setTimeout_def)
  have i: "batchTimeout (setTimeout s) = Some (next_timer s)"
    by (simp add: setTimeout_def)
  show ?thesis
    using a b c d e f g i by - (intro conjI, assumption+)
qed

theorem at_most_one_timer_witness:
  "timer_inv (run demo
      [SetMaxQueueSize (Some 2),
       Execute (VStr ''a'') (LObj []) None (at 0),
       Timeout 0,
       Execute (VStr ''b'') (LObj []) None (at 0),
       Execute (VStr ''c'') (LObj []) None (at 0)]
      (client (LObj [])))
   \<and> length (timers (run demo
      [SetMaxQueueSize (Some 2),
       Execute (VStr ''a'') (LObj []) None (at 0),
       Timeout 0,
       Execute (VStr ''b'') (LObj []) None (at 0),
       Execute (VStr ''c'') (LObj []) None (at 0)]
      (client (LObj [])))) \<le> 1"
  using at_most_one_timer [of demo "''T''" "VRef 0" "[[]]" "client (LObj [])"] client_constructed
  by blast

section \<open>What \<^verbatim>\<open>execute\<close> accepts\<close>




















text \<open>
  Claim C1 at a concrete input. The first of two identical calls with a ten-second
  cache directive returns its promise; the second, made five seconds later, enqueues
  nothing, but what it returns is the cache entry \<^verbatim>\<open>{expires, promise}\<close>, not the promise
  the first caller got. A third call after the expiry enqueues again.
\<close>

theorem cache_hit_returns_entry:
  "(let (r1, s1) = execute demo (VStr ''get'') Undefined (Some (CacheSeconds 10)) (at 0) (client (LObj []));
        (r2, s2) = execute demo (VStr ''get'') Undefined (Some (CacheSeconds 10)) (at 5000) s1;
        (r3, s3) = execute demo (VStr ''get'') Undefined (Some (CacheSeconds 10)) (at 10000) s2
    in (r1, r2, map method_name (queue s2), r3, map method_name (queue s3)))
   = (Inr (Promise 0), Inr (CacheEntry \<lparr>expires = At 10000, promise = 0\<rparr>), [''get''],
      Inr (Promise 1), [''get'', ''get''])"
  by code_simp

theorem cache_hit_returns_entry_witness:
  "(let (r1, s1) = execute demo (VStr ''get'') Undefined (Some (CacheSeconds 10)) (at 0) (client (LObj []));
        (r2, s2) = execute demo (VStr ''get'') Undefined (Some (CacheSeconds 10)) (at 5000) s1
    in (r1, r2))
   = (Inr (Promise 0), Inr (CacheEntry \<lparr>expires = At 10000, promise = 0\<rparr>))"
  using cache_hit_returns_entry
  by (simp add: Let_def split: prod.splits)

text \<open>
  Claim C2 at a concrete input. The client is built with the fixed parameters
  \<^verbatim>\<open>{filter: {w: '0'}}\<close>; call \<^verbatim>\<open>a\<close> passes \<^verbatim>\<open>{filter: {x: '1'}}\<close> and call \<^verbatim>\<open>b\<close> passes
  \<^verbatim>\<open>{filter: {y: '2'}}\<close>. \<^verbatim>\<open>mergeRecursive({}, this._options.params)\<close> copies the top
  level only, so both records share the client's own \<^verbatim>\<open>filter\<close> object and both lines
  carry \<^verbatim>\<open>x\<close> and \<^verbatim>\<open>y\<close>.
\<close>

theorem shared_nested_params:
  "map body (posted (run demo
      [Execute (VStr ''a'') (LObj [(''filter'', LObj [(''x'', LStr ''1'')])]) None (at 0),
       Execute (VStr ''b'') (LObj [(''filter'', LObj [(''y'', LStr ''2'')])]) None (at 0),
       Timeout 0]
      (client (LObj [(''params'', LObj [(''filter'', LObj [(''w'', LStr ''0'')])])]))))
   = [LF @ ''method=a&track=T&filter[w]=0&filter[x]=1&filter[y]=2'' @ LF @
      ''method=b&track=T&filter[w]=0&filter[x]=1&filter[y]=2'' @ LF]"
  by code_simp

theorem shared_nested_params_witness:
  "length (posted (run demo
      [Execute (VStr ''a'') (LObj [(''filter'', LObj [(''x'', LStr ''1'')])]) None (at 0),
       Execute (VStr ''b'') (LObj [(''filter'', LObj [(''y'', LStr ''2'')])]) None (at 0),
       Timeout 0]
      (client (LObj [(''params'', LObj [(''filter'', LObj [(''w'', LStr ''0'')])])])))) = 1"
  using arg_cong [OF shared_nested_params, of length]
  by simp

section \<open>What \<^verbatim>\<open>mergeRecursive\<close> changes in the store\<close>






lemma set_prop_object: "a < length h \<Longrightarrow> \<exists>h1. set_prop h (VRef a) p w = Inr h1"
  by simp

lemma set_prop_fails: "set_prop h o1 p w = Inl e \<Longrightarrow> length h' = length h \<Longrightarrow> set_prop h' o1 p w' = Inl e"
  by (cases o1) (auto split: if_splits)



lemma refs_Undefined [simp]: "refs Undefined = {}" "refs Null = {}" "refs (VStr s) = {}"
  "refs (VRef a) = {a}"
  by (simp_all add: refs_def)


















section \<open>Object literals\<close>

lemma extends_refl [simp]: "extends h h"
  by (simp add: extends_def)










section \<open>The track pair on the wire\<close>







section \<open>The identifier in the queued records\<close>





section \<open>The identifier through the events\<close>

lemma bookkeeping_refl [simp]: "bookkeeping s s"
  by (simp add: bookkeeping_def)

lemma bookkeeping_trans: "bookkeeping s s1 \<Longrightarrow> bookkeeping s1 s2 \<Longrightarrow> bookkeeping s s2"
  by (simp add: bookkeeping_def)










lemma carries_answered [simp]: "carries P ident (x\<lparr>answered := b\<rparr>) = carries P ident x"
  by (simp add: carries_def)



section \<open>The identifier through the constructor\<close>














end
